theory Spec2Isabelle
  imports Complex_Main "HOL-Library.AList"
begin

section \<open>Python values used by the point-of-sale model\<close>

text \<open>
  The program is Python. Its amounts are Python floats; the model idealises them as exact
  rationals (\<open>rat\<close>), so every statement below is about the arithmetic the code writes
  down, evaluated without rounding error and without the special values inf and nan. All
  concrete amounts that occur in the examples (5, 8, 2, 50, 60, ...) are small integers, on
  which binary floating point is exact. Page counts are Python's unbounded integers
  (\<open>int\<close>). Text is \<open>string\<close>; the only non-ASCII character of the program, the peso
  sign U+20B1, is written as its three UTF-8 bytes, the form in which the receipt file
  stores it.
\<close>

datatype error =
    ValueError string
  | NoSectionError string
  | NoOptionError string string
  | DuplicateSectionError string
  | DuplicateOptionError string string
  | OSError

subsection \<open>str.upper, str.lower, str(int)\<close>

definition upper_char :: "char \<Rightarrow> char" where
  "upper_char c =
     (let n = (of_char c :: nat) in if 97 \<le> n \<and> n \<le> 122 then char_of (n - 32) else c)"

definition lower_char :: "char \<Rightarrow> char" where
  "lower_char c =
     (let n = (of_char c :: nat) in if 65 \<le> n \<and> n \<le> 90 then char_of (n + 32) else c)"

definition py_upper :: "string \<Rightarrow> string" where
  "py_upper s = map upper_char s"

definition py_lower :: "string \<Rightarrow> string" where
  "py_lower s = map lower_char s"

definition digit_char :: "nat \<Rightarrow> char" where
  "digit_char d = char_of (48 + d)"

fun str_nat :: "nat \<Rightarrow> string" where
  "str_nat n = (if n < 10 then [digit_char n] else str_nat (n div 10) @ [digit_char (n mod 10)])"

declare str_nat.simps [simp del]

definition str_int :: "int \<Rightarrow> string" where
  "str_int i = (if i < 0 then CHR ''-'' # str_nat (nat (- i)) else str_nat (nat i))"

text \<open>\<open>'%02d' % n\<close>: at least two digits, padded with a zero.\<close>

definition pad2 :: "nat \<Rightarrow> string" where
  "pad2 n = (if n < 10 then CHR ''0'' # str_nat n else str_nat n)"

text \<open>\<open>sum(iterable)\<close>: starts from 0 and adds from the left.\<close>

definition py_sum :: "rat list \<Rightarrow> rat" where
  "py_sum xs = foldl (+) 0 xs"

text \<open>\<open>sep.join(lines)\<close>.\<close>

fun join :: "string \<Rightarrow> string list \<Rightarrow> string" where
  "join sep [] = []"
| "join sep [l] = l"
| "join sep (l # m # ls) = l @ sep @ join sep (m # ls)"

subsection \<open>float(str), str(float) and the format \<open>:.2f\<close>\<close>

definition is_digit :: "char \<Rightarrow> bool" where
  "is_digit c = (let n = (of_char c :: nat) in 48 \<le> n \<and> n \<le> 57)"

definition is_space :: "char \<Rightarrow> bool" where
  "is_space c = (let n = (of_char c :: nat) in n = 32 \<or> (9 \<le> n \<and> n \<le> 13))"

definition digit_val :: "char \<Rightarrow> nat" where
  "digit_val c = of_char c - 48"

definition nat_of_digits :: "string \<Rightarrow> nat" where
  "nat_of_digits s = foldl (\<lambda>acc c. 10 * acc + digit_val c) 0 s"

definition strip :: "string \<Rightarrow> string" where
  "strip s = rev (dropWhile is_space (rev (dropWhile is_space s)))"

text \<open>
  The exponent part of a float literal: nothing, or \<open>e\<close>/\<open>E\<close>, an optional sign and at
  least one digit, up to the end of the string.
\<close>

definition parse_exponent :: "string \<Rightarrow> int option" where
  "parse_exponent s =
     (case s of
        [] \<Rightarrow> Some 0
      | c # t \<Rightarrow>
          if c = CHR ''e'' \<or> c = CHR ''E'' then
            (let (neg, ds) = (case t of
                                [] \<Rightarrow> (False, [])
                              | d # u \<Rightarrow> if d = CHR ''-'' then (True, u)
                                         else if d = CHR ''+'' then (False, u)
                                         else (False, t))
             in if ds \<noteq> [] \<and> list_all is_digit ds
                then Some (if neg then - int (nat_of_digits ds) else int (nat_of_digits ds))
                else None)
          else None)"

text \<open>
  An unsigned float literal: digits with an optional fraction (\<open>5\<close>, \<open>5.\<close>, \<open>5.25\<close>,
  \<open>.5\<close>) and an optional exponent.
\<close>

definition parse_unsigned :: "string \<Rightarrow> rat option" where
  "parse_unsigned s =
     (let ip = takeWhile is_digit s;
          r1 = dropWhile is_digit s;
          (fp, r2) = (case r1 of
                        [] \<Rightarrow> ([], [])
                      | c # t \<Rightarrow> if c = CHR ''.''
                                 then (takeWhile is_digit t, dropWhile is_digit t)
                                 else ([], r1))
      in if ip @ fp = [] then None
         else (case parse_exponent r2 of
                 None \<Rightarrow> None
               | Some e \<Rightarrow>
                   (let m = of_nat (nat_of_digits (ip @ fp)) / (10 ^ length fp)
                    in Some (if 0 \<le> e then m * 10 ^ nat e else m / 10 ^ nat (- e)))))"

text \<open>
  \<open>float(s)\<close> on the decimal syntax: surrounding whitespace is dropped, then an optional
  sign and an unsigned literal. \<open>None\<close> is Python's ValueError. The spellings of inf and
  nan, digit groups with underscores and non-ASCII digits are not part of the model.
\<close>

definition float_of_string :: "string \<Rightarrow> rat option" where
  "float_of_string s =
     (case strip s of
        [] \<Rightarrow> None
      | c # t \<Rightarrow>
          if c = CHR ''-'' then map_option uminus (parse_unsigned t)
          else if c = CHR ''+'' then parse_unsigned t
          else parse_unsigned (c # t))"

text \<open>\<open>float(v)\<close> as a call: the value, or ValueError.\<close>

definition convert :: "string \<Rightarrow> error + rat" where
  "convert v =
     (case float_of_string v of
        None \<Rightarrow> Inl (ValueError (''could not convert string to float: '' @ v))
      | Some x \<Rightarrow> Inr x)"

text \<open>
  The digits of a fraction \<open>0 \<le> f < 1\<close>, at most \<open>k\<close> of them, stopping when nothing
  is left.
\<close>

fun frac_digits :: "nat \<Rightarrow> rat \<Rightarrow> string" where
  "frac_digits 0 f = []"
| "frac_digits (Suc k) f =
     (if f = 0 then []
      else (let d = nat \<lfloor>f * 10\<rfloor> in digit_char d # frac_digits k (f * 10 - of_nat d)))"

text \<open>
  \<open>str(x)\<close> of a float in positional notation: the integer part, a point and the
  fraction digits (\<open>6.0\<close>, \<open>9.25\<close>); Python prints at most 17 significant digits, and
  switches to exponent notation from 1e16 on and below 1e-4, which the model leaves out.
\<close>

definition str_float :: "rat \<Rightarrow> string" where
  "str_float x =
     (let a = \<bar>x\<bar>; ip = nat \<lfloor>a\<rfloor>; f = a - of_nat ip
      in (if x < 0 then ''-'' else '''') @ str_nat ip @ ''.'' @
         (if f = 0 then ''0'' else frac_digits 17 f))"

text \<open>
  \<open>f"{x:.2f}"\<close>: two fraction digits, the exact value rounded half to even (Python rounds
  the exact binary value; on an exactly representable tie such as 0.125 that is half to
  even), the sign kept also when the digits are all zero.
\<close>

definition fmt2 :: "rat \<Rightarrow> string" where
  "fmt2 x =
     (let a = \<bar>x\<bar> * 100; n = \<lfloor>a\<rfloor>; r = a - of_int n;
          q = nat (if r > 1 / 2 \<or> (r = 1 / 2 \<and> odd n) then n + 1 else n)
      in (if x < 0 then ''-'' else '''') @ str_nat (q div 100) @ ''.'' @ pad2 (q mod 100))"

definition peso :: string where
  "peso = [char_of (0xE2 :: nat), char_of (0x82 :: nat), char_of (0xB1 :: nat)]"

subsection \<open>datetime and strftime\<close>

record datetime =
  year :: nat
  month :: nat
  day :: nat
  hour :: nat
  minute :: nat
  second :: nat

text \<open>The values \<open>datetime.now()\<close> can return (microseconds are never printed).\<close>

definition valid_datetime :: "datetime \<Rightarrow> bool" where
  "valid_datetime d \<longleftrightarrow>
     1000 \<le> year d \<and> year d \<le> 9999 \<and> 1 \<le> month d \<and> month d \<le> 12 \<and>
     1 \<le> day d \<and> day d \<le> 31 \<and> hour d < 24 \<and> minute d < 60 \<and> second d < 60"

text \<open>The directives the program uses, in the C locale.\<close>

definition directive :: "char \<Rightarrow> datetime \<Rightarrow> string" where
  "directive c d =
     (if c = CHR ''m'' then pad2 (month d)
      else if c = CHR ''d'' then pad2 (day d)
      else if c = CHR ''Y'' then str_nat (year d)
      else if c = CHR ''H'' then pad2 (hour d)
      else if c = CHR ''M'' then pad2 (minute d)
      else if c = CHR ''S'' then pad2 (second d)
      else if c = CHR ''I'' then pad2 (if hour d mod 12 = 0 then 12 else hour d mod 12)
      else if c = CHR ''p'' then (if hour d < 12 then ''AM'' else ''PM'')
      else if c = CHR ''%'' then ''%''
      else [CHR ''%'', c])"

fun strftime :: "datetime \<Rightarrow> string \<Rightarrow> string" where
  "strftime d [] = []"
| "strftime d [c] = [c]"
| "strftime d (c # e # fmt) =
     (if c = CHR ''%'' then directive e d @ strftime d fmt else c # strftime d (e # fmt))"

section \<open>models/config.py\<close>

subsection \<open>The part of configparser.ConfigParser that PriceConfig uses\<close>

text \<open>
  A parser holds the options of the DEFAULT section and an ordered dictionary of sections;
  every value is a string. A dictionary is an association list: \<open>map_of\<close> looks a key up,
  \<open>AList.update\<close> overwrites a key in place or appends a new one, as Python's \<open>dict\<close>
  does. Interpolation of \<open>%\<close> inside values is not part of the model.
\<close>

type_synonym options = "(string \<times> string) list"

record ConfigParser =
  defaults :: options
  sections :: "(string \<times> options) list"

text \<open>
  A configuration file as the parser has split it: its sections in file order, each with
  its option lines in file order (keys as written, values already stripped).
\<close>

type_synonym ini_file = "(string \<times> options) list"

definition new_parser :: ConfigParser where
  "new_parser = \<lparr>defaults = [], sections = []\<rparr>"

text \<open>\<open>config[name] = {...}\<close>: the section is emptied or created, then filled.\<close>

definition set_section :: "string \<Rightarrow> options \<Rightarrow> ConfigParser \<Rightarrow> ConfigParser" where
  "set_section name opts cp =
     (if name = ''DEFAULT'' then cp\<lparr>defaults := opts\<rparr>
      else cp\<lparr>sections := AList.update name opts (sections cp)\<rparr>)"

text \<open>\<open>name in config\<close>.\<close>

definition has_section :: "ConfigParser \<Rightarrow> string \<Rightarrow> bool" where
  "has_section cp name \<longleftrightarrow> name = ''DEFAULT'' \<or> map_of (sections cp) name \<noteq> None"

text \<open>\<open>config[section][option] = value\<close>; option names are lower-cased.\<close>

definition set_option :: "string \<Rightarrow> string \<Rightarrow> string \<Rightarrow> ConfigParser \<Rightarrow> error + ConfigParser" where
  "set_option section option v cp =
     (if section = [] \<or> section = ''DEFAULT''
      then Inr (cp\<lparr>defaults := AList.update (py_lower option) v (defaults cp)\<rparr>)
      else (case map_of (sections cp) section of
              None \<Rightarrow> Inl (NoSectionError section)
            | Some sd \<Rightarrow>
                Inr (cp\<lparr>sections :=
                       AList.update section (AList.update (py_lower option) v sd) (sections cp)\<rparr>)))"

text \<open>
  \<open>config.get(section, option)\<close>: the section's own options first, then those of
  DEFAULT; a missing section (other than DEFAULT) or option is an error.
\<close>

definition get_option :: "ConfigParser \<Rightarrow> string \<Rightarrow> string \<Rightarrow> error + string" where
  "get_option cp section option =
     (case map_of (sections cp) section of
        None \<Rightarrow>
          if section \<noteq> ''DEFAULT'' then Inl (NoSectionError section)
          else (case map_of (defaults cp) (py_lower option) of
                  None \<Rightarrow> Inl (NoOptionError (py_lower option) section)
                | Some v \<Rightarrow> Inr v)
      | Some sd \<Rightarrow>
          (case map_of sd (py_lower option) of
             Some v \<Rightarrow> Inr v
           | None \<Rightarrow>
               (case map_of (defaults cp) (py_lower option) of
                  None \<Rightarrow> Inl (NoOptionError (py_lower option) section)
                | Some v \<Rightarrow> Inr v)))"

text \<open>
  \<open>config.getfloat(section, option, fallback=fb)\<close>: the fallback answers a missing section
  or option only; a value that \<open>float\<close> rejects raises ValueError, which nothing catches.
\<close>

definition getfloat :: "ConfigParser \<Rightarrow> string \<Rightarrow> string \<Rightarrow> rat \<Rightarrow> error + rat" where
  "getfloat cp section option fb =
     (case get_option cp section option of
        Inl (NoSectionError s) \<Rightarrow> Inr fb
      | Inl (NoOptionError k s) \<Rightarrow> Inr fb
      | Inl e \<Rightarrow> Inl e
      | Inr v \<Rightarrow> convert v)"

text \<open>
  \<open>config.read(file)\<close> on the sections of a file, in strict mode (the default): a section
  header or an option seen twice in the file raises; otherwise each option line is written
  over what the parser holds. \<open>seen\<close> is the parser's \<open>elements_added\<close> for section
  names, \<open>added\<close> the same for the options of the current section.
\<close>

fun read_options :: "string \<Rightarrow> string list \<Rightarrow> options \<Rightarrow> options \<Rightarrow> error + options" where
  "read_options sect added [] cur = Inr cur"
| "read_options sect added ((k, v) # kvs) cur =
     (let optname = py_lower k
      in if optname \<in> set added then Inl (DuplicateOptionError sect optname)
         else read_options sect (optname # added) kvs (AList.update optname v cur))"

fun read_sections :: "string list \<Rightarrow> string list \<Rightarrow> ini_file \<Rightarrow> ConfigParser \<Rightarrow> error + ConfigParser" where
  "read_sections seen dadded [] cp = Inr cp"
| "read_sections seen dadded ((sectname, kvs) # rest) cp =
     (case map_of (sections cp) sectname of
        Some cur \<Rightarrow>
          if sectname \<in> set seen then Inl (DuplicateSectionError sectname)
          else (case read_options sectname [] kvs cur of
                  Inl e \<Rightarrow> Inl e
                | Inr cur' \<Rightarrow>
                    read_sections (sectname # seen) dadded rest
                      (cp\<lparr>sections := AList.update sectname cur' (sections cp)\<rparr>))
      | None \<Rightarrow>
          if sectname = ''DEFAULT'' then
            (case read_options sectname dadded kvs (defaults cp) of
               Inl e \<Rightarrow> Inl e
             | Inr cur' \<Rightarrow>
                 read_sections seen (map (py_lower \<circ> fst) kvs @ dadded) rest
                   (cp\<lparr>defaults := cur'\<rparr>))
          else (case read_options sectname [] kvs [] of
                  Inl e \<Rightarrow> Inl e
                | Inr cur' \<Rightarrow>
                    read_sections (sectname # seen) dadded rest
                      (cp\<lparr>sections := AList.update sectname cur' (sections cp)\<rparr>)))"

definition read_file :: "ini_file \<Rightarrow> ConfigParser \<Rightarrow> error + ConfigParser" where
  "read_file f cp = read_sections [] [] f cp"

text \<open>\<open>config.write(file)\<close>: DEFAULT first when it has options, then every section.\<close>

definition write_file :: "ConfigParser \<Rightarrow> ini_file" where
  "write_file cp = (if defaults cp = [] then [] else [(''DEFAULT'', defaults cp)]) @ sections cp"

subsection \<open>PriceConfig\<close>

record PriceConfig =
  config_file :: string
  config :: ConfigParser

definition load_default_config :: "PriceConfig \<Rightarrow> PriceConfig" where
  "load_default_config pc =
     pc\<lparr>config :=
       set_section ''SCAN''
         [(''monochrome_price'', ''2.00''), (''colored_price'', ''4.00''),
          (''image_surcharge'', ''2.00'')]
       (set_section ''PHOTOCOPY''
         [(''monochrome_price'', ''3.00''), (''colored_price'', ''5.00''),
          (''image_surcharge'', ''2.00'')]
       (set_section ''PRINT''
         [(''monochrome_price'', ''5.00''), (''colored_price'', ''8.00''),
          (''image_surcharge'', ''2.00'')]
         (config pc)))\<rparr>"

text \<open>
  \<open>load_config\<close>: \<open>persisted\<close> is what the disk holds under \<open>config_file\<close>, \<open>None\<close>
  when \<open>os.path.exists\<close> is false.
\<close>

definition load_config :: "ini_file option \<Rightarrow> PriceConfig \<Rightarrow> error + PriceConfig" where
  "load_config persisted pc =
     (case persisted of
        None \<Rightarrow> Inr pc
      | Some f \<Rightarrow>
          (case read_file f (config pc) of
             Inl e \<Rightarrow> Inl e
           | Inr cp \<Rightarrow> Inr (pc\<lparr>config := cp\<rparr>)))"

text \<open>\<open>PriceConfig(config_file)\<close>.\<close>

definition PriceConfig_init :: "string \<Rightarrow> ini_file option \<Rightarrow> error + PriceConfig" where
  "PriceConfig_init file persisted =
     load_config persisted
       (load_default_config \<lparr>config_file = file, config = new_parser\<rparr>)"

definition get_monochrome_price :: "PriceConfig \<Rightarrow> string \<Rightarrow> error + rat" where
  "get_monochrome_price pc service =
     getfloat (config pc) (py_upper service) ''monochrome_price'' (1 / 10)"

definition get_colored_price :: "PriceConfig \<Rightarrow> string \<Rightarrow> error + rat" where
  "get_colored_price pc service =
     getfloat (config pc) (py_upper service) ''colored_price'' (1 / 4)"

definition get_image_surcharge :: "PriceConfig \<Rightarrow> string \<Rightarrow> error + rat" where
  "get_image_surcharge pc service =
     getfloat (config pc) (py_upper service) ''image_surcharge'' (1 / 20)"

text \<open>
  The three setters share one shape: create the section when the parser has none of that
  name, then store \<open>str(price)\<close> under the option.
\<close>

definition set_price :: "string \<Rightarrow> string \<Rightarrow> rat \<Rightarrow> PriceConfig \<Rightarrow> error + PriceConfig" where
  "set_price option service price pc =
     (let section = py_upper service;
          cp = (if \<not> has_section (config pc) section
                then set_section section [] (config pc) else config pc)
      in case set_option section option (str_float price) cp of
           Inl e \<Rightarrow> Inl e
         | Inr cp' \<Rightarrow> Inr (pc\<lparr>config := cp'\<rparr>))"

definition set_monochrome_price :: "string \<Rightarrow> rat \<Rightarrow> PriceConfig \<Rightarrow> error + PriceConfig" where
  "set_monochrome_price service price pc = set_price ''monochrome_price'' service price pc"

definition set_colored_price :: "string \<Rightarrow> rat \<Rightarrow> PriceConfig \<Rightarrow> error + PriceConfig" where
  "set_colored_price service price pc = set_price ''colored_price'' service price pc"

definition set_image_surcharge :: "string \<Rightarrow> rat \<Rightarrow> PriceConfig \<Rightarrow> error + PriceConfig" where
  "set_image_surcharge service price pc = set_price ''image_surcharge'' service price pc"

section \<open>models/transaction.py\<close>

datatype ServiceType = PRINT | PHOTOCOPY | SCAN

text \<open>The enum member's \<open>.value\<close>.\<close>

fun service_value :: "ServiceType \<Rightarrow> string" where
  "service_value PRINT = ''Print''"
| "service_value PHOTOCOPY = ''Photocopy''"
| "service_value SCAN = ''Scan''"

record Transaction =
  service_type :: ServiceType
  pages :: int
  is_colored :: bool
  has_images :: bool
  timestamp :: datetime
  subtotal :: rat

text \<open>\<open>Transaction(service_type, pages, is_colored, has_images)\<close> at time \<open>now\<close>.\<close>

definition Transaction_init :: "datetime \<Rightarrow> ServiceType \<Rightarrow> int \<Rightarrow> bool \<Rightarrow> bool \<Rightarrow> Transaction" where
  "Transaction_init now st p colored images =
     \<lparr>service_type = st, pages = p, is_colored = colored, has_images = images,
      timestamp = now, subtotal = 0\<rparr>"

text \<open>
  \<open>calculate_subtotal\<close> assigns \<open>self.subtotal\<close> once after the base price is known and
  once more after the surcharge is known, so the object it leaves behind when a lookup
  raises is part of the result: the pair is what the call returns (or raises) and the
  transaction afterwards.
\<close>

definition calculate_subtotal :: "PriceConfig \<Rightarrow> Transaction \<Rightarrow> (error + rat) \<times> Transaction" where
  "calculate_subtotal cfg t =
     (let service_name = py_lower (service_value (service_type t))
      in case (if is_colored t then get_colored_price cfg service_name
               else get_monochrome_price cfg service_name) of
           Inl e \<Rightarrow> (Inl e, t)
         | Inr base_price \<Rightarrow>
             (let t1 = t\<lparr>subtotal := base_price * of_int (pages t)\<rparr>
              in if has_images t then
                   (case get_image_surcharge cfg service_name of
                      Inl e \<Rightarrow> (Inl e, t1)
                    | Inr image_surcharge \<Rightarrow>
                        (let t2 = t1\<lparr>subtotal := subtotal t1 + image_surcharge * of_int (pages t)\<rparr>
                         in (Inr (subtotal t2), t2)))
                 else (Inr (subtotal t1), t1)))"

definition to_string :: "Transaction \<Rightarrow> string" where
  "to_string t =
     (let color_str = (if is_colored t then ''Colored'' else ''Monochrome'');
          images_str = (if has_images t then '' (with images)'' else [])
      in service_value (service_type t) @ '' - '' @ str_int (pages t) @ '' pages - '' @
         color_str @ images_str @ '': '' @ peso @ fmt2 (subtotal t))"

record Receipt =
  transactions :: "Transaction list"
  timestamp :: datetime
  total :: rat

text \<open>\<open>Receipt()\<close> at time \<open>now\<close>.\<close>

definition Receipt_init :: "datetime \<Rightarrow> Receipt" where
  "Receipt_init now = \<lparr>transactions = [], timestamp = now, total = 0\<rparr>"

definition calculate_total :: "Receipt \<Rightarrow> Receipt" where
  "calculate_total r = r\<lparr>total := py_sum (map subtotal (transactions r))\<rparr>"

definition Receipt_add_transaction :: "Transaction \<Rightarrow> Receipt \<Rightarrow> Receipt" where
  "Receipt_add_transaction t r = calculate_total (r\<lparr>transactions := transactions r @ [t]\<rparr>)"

text \<open>
  \<open>Receipt.remove_transaction\<close>: the index is checked first, and an index outside the
  list changes nothing and raises nothing. \<open>pop(index)\<close> on a checked index removes that
  one element.
\<close>

definition Receipt_remove_transaction :: "int \<Rightarrow> Receipt \<Rightarrow> Receipt" where
  "Receipt_remove_transaction index r =
     (if 0 \<le> index \<and> index < int (length (transactions r))
      then calculate_total
             (r\<lparr>transactions :=
                  take (nat index) (transactions r) @ drop (Suc (nat index)) (transactions r)\<rparr>)
      else r)"

definition get_receipt_filename :: "Receipt \<Rightarrow> string" where
  "get_receipt_filename r =
     (let timestamp_str = strftime (timestamp r) ''%m-%d-%Y_%H-%M-%S''
      in ''Receipt_'' @ timestamp_str @ ''.txt'')"

text \<open>The loop \<open>for i, transaction in enumerate(self.transactions, 1)\<close>.\<close>

fun append_numbered :: "nat \<Rightarrow> Transaction list \<Rightarrow> string list \<Rightarrow> string list" where
  "append_numbered i [] receipt_text = receipt_text"
| "append_numbered i (t # ts) receipt_text =
     append_numbered (Suc i) ts (receipt_text @ [str_nat i @ ''. '' @ to_string t])"

definition receipt_lines :: "Receipt \<Rightarrow> string list" where
  "receipt_lines r =
     (let receipt_text =
            [replicate 50 CHR ''='',
             ''           PRINTING BUSINESS POS'',
             replicate 50 CHR ''='',
             [],
             ''Date: '' @ strftime (timestamp r) ''%m/%d/%Y'',
             ''Time: '' @ strftime (timestamp r) ''%I:%M:%S %p'',
             [],
             replicate 50 CHR ''-'',
             ''TRANSACTION DETAILS:'',
             replicate 50 CHR ''-''];
          receipt_text = append_numbered 1 (transactions r) receipt_text
      in receipt_text @
           [[],
            replicate 50 CHR ''-'',
            ''TOTAL: '' @ peso @ fmt2 (total r),
            replicate 50 CHR ''-'',
            [],
            ''Thank you for your business!'',
            replicate 50 CHR ''=''])"

definition generate_receipt_text :: "Receipt \<Rightarrow> string" where
  "generate_receipt_text r = join [char_of (10 :: nat)] (receipt_lines r)"

section \<open>controllers/pos_controller.py\<close>

subsection \<open>The files the controller touches\<close>

text \<open>
  The disk holds directories, text files (the receipts) and the configuration file, the
  latter kept as the sections a parser reads from it. A file operation can fail; which
  one does is an input of the model: \<open>MakedirsFails\<close>, \<open>OpenFails\<close>, or \<open>WriteFails n\<close>
  when \<open>write\<close> raises after \<open>n\<close> units (characters of a receipt, sections of a
  configuration) have reached the file.
\<close>

record filesystem =
  directories :: "string list"
  text_files :: "(string \<times> string) list"
  ini_files :: "(string \<times> ini_file) list"

datatype io_fault = NoFault | MakedirsFails | OpenFails | WriteFails nat

text \<open>\<open>os.makedirs(d, exist_ok=True)\<close>.\<close>

definition makedirs :: "io_fault \<Rightarrow> string \<Rightarrow> filesystem \<Rightarrow> (error + unit) \<times> filesystem" where
  "makedirs fault d fs =
     (if fault = MakedirsFails then (Inl OSError, fs)
      else (Inr (), fs\<lparr>directories := List.insert d (directories fs)\<rparr>))"

text \<open>\<open>with open(path, 'w') as file: file.write(content)\<close>; opening truncates.\<close>

definition write_text :: "io_fault \<Rightarrow> string \<Rightarrow> string \<Rightarrow> filesystem \<Rightarrow> (error + unit) \<times> filesystem" where
  "write_text fault path content fs =
     (case fault of
        OpenFails \<Rightarrow> (Inl OSError, fs)
      | WriteFails n \<Rightarrow>
          (Inl OSError, fs\<lparr>text_files := AList.update path (take n content) (text_files fs)\<rparr>)
      | _ \<Rightarrow> (Inr (), fs\<lparr>text_files := AList.update path content (text_files fs)\<rparr>))"

text \<open>\<open>PriceConfig.save_config\<close>.\<close>

definition save_config :: "io_fault \<Rightarrow> PriceConfig \<Rightarrow> filesystem \<Rightarrow> (error + unit) \<times> filesystem" where
  "save_config fault pc fs =
     (case fault of
        OpenFails \<Rightarrow> (Inl OSError, fs)
      | WriteFails n \<Rightarrow>
          (Inl OSError,
           fs\<lparr>ini_files :=
                AList.update (config_file pc) (take n (write_file (config pc))) (ini_files fs)\<rparr>)
      | _ \<Rightarrow>
          (Inr (),
           fs\<lparr>ini_files := AList.update (config_file pc) (write_file (config pc)) (ini_files fs)\<rparr>))"

text \<open>\<open>os.path.join\<close> of two relative names (POSIX).\<close>

definition path_join :: "string \<Rightarrow> string \<Rightarrow> string" where
  "path_join d f = d @ ''/'' @ f"

subsection \<open>POSController\<close>

record POSController =
  config :: PriceConfig
  current_receipt :: Receipt
  receipt_history :: "Receipt list"

text \<open>\<open>POSController()\<close> at time \<open>now\<close>, on a disk \<open>fs\<close>.\<close>

definition POSController_init :: "datetime \<Rightarrow> filesystem \<Rightarrow> error + POSController" where
  "POSController_init now fs =
     (case PriceConfig_init ''config.ini'' (map_of (ini_files fs) ''config.ini'') of
        Inl e \<Rightarrow> Inl e
      | Inr pc \<Rightarrow>
          Inr \<lparr>config = pc, current_receipt = Receipt_init now, receipt_history = []\<rparr>)"

definition add_transaction ::
  "datetime \<Rightarrow> ServiceType \<Rightarrow> int \<Rightarrow> bool \<Rightarrow> bool \<Rightarrow> POSController \<Rightarrow> (error + Transaction) \<times> POSController" where
  "add_transaction now st p colored images c =
     (case calculate_subtotal (config c) (Transaction_init now st p colored images) of
        (Inl e, t) \<Rightarrow> (Inl e, c)
      | (Inr v, t) \<Rightarrow>
          (Inr t, c\<lparr>current_receipt := Receipt_add_transaction t (current_receipt c)\<rparr>))"

text \<open>
  \<open>remove_transaction\<close>: the \<open>try\<close> body calls the receipt's method, which never raises,
  so the \<open>except IndexError\<close> branch is never taken.
\<close>

definition remove_transaction :: "int \<Rightarrow> POSController \<Rightarrow> bool \<times> POSController" where
  "remove_transaction index c =
     (True, c\<lparr>current_receipt := Receipt_remove_transaction index (current_receipt c)\<rparr>)"

definition clear_current_receipt :: "datetime \<Rightarrow> POSController \<Rightarrow> POSController" where
  "clear_current_receipt now c = c\<lparr>current_receipt := Receipt_init now\<rparr>"

definition get_current_total :: "POSController \<Rightarrow> rat \<times> POSController" where
  "get_current_total c =
     (let r = calculate_total (current_receipt c) in (total r, c\<lparr>current_receipt := r\<rparr>))"

text \<open>
  \<open>generate_receipt\<close> at time \<open>now\<close> (the time the fresh receipt is stamped with), under
  the file fault \<open>fault\<close>. The result is what the call returns or raises, the controller
  afterwards and the disk afterwards.
\<close>

definition generate_receipt ::
  "io_fault \<Rightarrow> datetime \<Rightarrow> POSController \<Rightarrow> filesystem \<Rightarrow> (error + string) \<times> POSController \<times> filesystem" where
  "generate_receipt fault now c fs =
     (if transactions (current_receipt c) = []
      then (Inl (ValueError ''No transactions to generate receipt for''), c, fs)
      else (case makedirs fault ''receipts'' fs of
              (Inl e, fs1) \<Rightarrow> (Inl e, c, fs1)
            | (Inr u, fs1) \<Rightarrow>
                (let receipt_content = generate_receipt_text (current_receipt c);
                     filename = path_join ''receipts'' (get_receipt_filename (current_receipt c))
                 in case write_text fault filename receipt_content fs1 of
                      (Inl e, fs2) \<Rightarrow> (Inl e, c, fs2)
                    | (Inr u, fs2) \<Rightarrow>
                        (Inr filename,
                         c\<lparr>receipt_history := receipt_history c @ [current_receipt c],
                           current_receipt := Receipt_init now\<rparr>,
                         fs2))))"

text \<open>
  \<open>update_pricing\<close>: three setters, then \<open>save_config\<close>; a failing save leaves the new
  prices in memory.
\<close>

definition update_pricing ::
  "io_fault \<Rightarrow> string \<Rightarrow> rat \<Rightarrow> rat \<Rightarrow> rat \<Rightarrow> POSController \<Rightarrow> filesystem \<Rightarrow> (error + unit) \<times> POSController \<times> filesystem" where
  "update_pricing fault service monochrome_price colored_price image_surcharge c fs =
     (case set_monochrome_price service monochrome_price (config c) of
        Inl e \<Rightarrow> (Inl e, c, fs)
      | Inr pc1 \<Rightarrow>
          (case set_colored_price service colored_price pc1 of
             Inl e \<Rightarrow> (Inl e, c\<lparr>config := pc1\<rparr>, fs)
           | Inr pc2 \<Rightarrow>
               (case set_image_surcharge service image_surcharge pc2 of
                  Inl e \<Rightarrow> (Inl e, c\<lparr>config := pc2\<rparr>, fs)
                | Inr pc3 \<Rightarrow>
                    (case save_config fault pc3 fs of
                       (r, fs') \<Rightarrow> (r, c\<lparr>config := pc3\<rparr>, fs')))))"

text \<open>
  The loop of \<open>recalculate_current_transactions\<close>: each transaction is recomputed in
  place; a lookup that raises stops the loop where it is.
\<close>

fun recalculate_loop :: "PriceConfig \<Rightarrow> Transaction list \<Rightarrow> error option \<times> Transaction list" where
  "recalculate_loop cfg [] = (None, [])"
| "recalculate_loop cfg (t # ts) =
     (case calculate_subtotal cfg t of
        (Inl e, t') \<Rightarrow> (Some e, t' # ts)
      | (Inr v, t') \<Rightarrow>
          (case recalculate_loop cfg ts of (r, ts') \<Rightarrow> (r, t' # ts')))"

definition recalculate_current_transactions :: "POSController \<Rightarrow> (error + unit) \<times> POSController" where
  "recalculate_current_transactions c =
     (case recalculate_loop (config c) (transactions (current_receipt c)) of
        (Some e, ts') \<Rightarrow>
          (Inl e, c\<lparr>current_receipt := (current_receipt c)\<lparr>transactions := ts'\<rparr>\<rparr>)
      | (None, ts') \<Rightarrow>
          (Inr (),
           c\<lparr>current_receipt := calculate_total ((current_receipt c)\<lparr>transactions := ts'\<rparr>)\<rparr>))"

section \<open>Reachable receipts, persisted fields, example data\<close>

text \<open>
  The receipts the program can hold: a fresh one, one more transaction added, an index
  removed (any integer), or the current receipt of a controller after a recalculation that
  ran to its end.
\<close>

inductive reachable_receipt :: "Receipt \<Rightarrow> bool" where
  fresh: "reachable_receipt (Receipt_init now)"
| added: "reachable_receipt r \<Longrightarrow> reachable_receipt (Receipt_add_transaction t r)"
| removed: "reachable_receipt r \<Longrightarrow> reachable_receipt (Receipt_remove_transaction index r)"
| recalculated:
    "reachable_receipt (current_receipt c) \<Longrightarrow>
     recalculate_current_transactions c = (Inr (), c') \<Longrightarrow>
     reachable_receipt (current_receipt c')"



definition default_prices :: PriceConfig where
  "default_prices = load_default_config \<lparr>config_file = ''config.ini'', config = new_parser\<rparr>"

definition ex_now :: datetime where
  "ex_now = \<lparr>year = 2024, month = 3, day = 5, hour = 13, minute = 7, second = 9\<rparr>"

definition ex_later :: datetime where
  "ex_later = \<lparr>year = 2024, month = 3, day = 5, hour = 18, minute = 30, second = 0\<rparr>"

definition empty_disk :: filesystem where
  "empty_disk = \<lparr>directories = [], text_files = [], ini_files = []\<rparr>"

definition ex_print :: Transaction where
  "ex_print = Transaction_init ex_now PRINT 5 True True"


text \<open>A controller started on an empty disk: default prices, an empty receipt.\<close>

definition ex_controller :: POSController where
  "ex_controller =
     \<lparr>config = default_prices, current_receipt = Receipt_init ex_now, receipt_history = []\<rparr>"

text \<open>The same controller after \<open>add_transaction(ServiceType.PRINT, 5, True, True)\<close>.\<close>

definition ex_controller1 :: POSController where
  "ex_controller1 = snd (add_transaction ex_now PRINT 5 True True ex_controller)"


text \<open>And after \<open>add_transaction(ServiceType.PHOTOCOPY, 3, False, False)\<close>.\<close>

definition ex_controller2 :: POSController where
  "ex_controller2 = snd (add_transaction ex_now PHOTOCOPY 3 False False ex_controller1)"

text \<open>
  The controller after \<open>update_pricing('print', 6, 9, 3)\<close> with a working disk, and then
  after \<open>recalculate_current_transactions()\<close>.
\<close>

definition ex_repriced :: POSController where
  "ex_repriced = fst (snd (update_pricing NoFault ''print'' 6 9 3 ex_controller1 empty_disk))"

definition ex_recalculated :: POSController where
  "ex_recalculated = snd (recalculate_current_transactions ex_repriced)"



section \<open>Reachable controllers\<close>

text \<open>
  The controllers the program can hold: one that \<open>POSController()\<close> has built on some
  disk, and whatever any method leaves behind, whether it returned or raised.
\<close>

inductive reachable :: "POSController \<Rightarrow> bool" where
  started: "POSController_init now fs = Inr c \<Longrightarrow> reachable c"
| after_add: "reachable c \<Longrightarrow> reachable (snd (add_transaction now st p colored images c))"
| after_remove: "reachable c \<Longrightarrow> reachable (snd (remove_transaction index c))"
| after_clear: "reachable c \<Longrightarrow> reachable (clear_current_receipt now c)"
| after_total: "reachable c \<Longrightarrow> reachable (snd (get_current_total c))"
| after_generate: "reachable c \<Longrightarrow> reachable (fst (snd (generate_receipt fault now c fs)))"
| after_pricing:
    "reachable c \<Longrightarrow>
     reachable (fst (snd (update_pricing fault service monochrome colored surcharge c fs)))"
| after_recalculate: "reachable c \<Longrightarrow> reachable (snd (recalculate_current_transactions c))"

text \<open>
  What the proofs keep track of in a parser: the text a section itself holds for an option,
  whether \<open>float\<close> accepts it, whether the three service sections hold their three
  options, and whether the options a transaction's subtotal needs are acceptable.
\<close>

definition own_option :: "ConfigParser \<Rightarrow> string \<Rightarrow> string \<Rightarrow> string option" where
  "own_option cp s k = (case map_of (sections cp) s of None \<Rightarrow> None | Some sd \<Rightarrow> map_of sd k)"

definition option_parses :: "ConfigParser \<Rightarrow> string \<Rightarrow> string \<Rightarrow> bool" where
  "option_parses cp s k \<longleftrightarrow>
     (case own_option cp s k of None \<Rightarrow> False | Some v \<Rightarrow> float_of_string v \<noteq> None)"

definition seeded :: "ConfigParser \<Rightarrow> bool" where
  "seeded cp \<longleftrightarrow>
     list_all
       (\<lambda>s. list_all (\<lambda>k. own_option cp s k \<noteq> None)
              [''monochrome_price'', ''colored_price'', ''image_surcharge''])
       [''PRINT'', ''PHOTOCOPY'', ''SCAN'']"

definition section_of :: "Transaction \<Rightarrow> string" where
  "section_of t = py_upper (py_lower (service_value (service_type t)))"

definition priced :: "ConfigParser \<Rightarrow> Transaction \<Rightarrow> bool" where
  "priced cp t \<longleftrightarrow>
     option_parses cp (section_of t)
       (if is_colored t then ''colored_price'' else ''monochrome_price'')
     \<and> (if has_images t then option_parses cp (section_of t) ''image_surcharge'' else True)"

definition controller_ok :: "POSController \<Rightarrow> bool" where
  "controller_ok c \<longleftrightarrow>
     reachable_receipt (current_receipt c)
     \<and> seeded (PriceConfig.config (config c))
     \<and> list_all (priced (PriceConfig.config (config c))) (transactions (current_receipt c))"

section \<open>Transaction subtotals\<close>

text \<open>
  Claim C1. For every service category, every page count and every pair of flags,
  \<open>calculate_subtotal\<close> returns (and stores in the transaction)
  \<open>base * pages + (image_surcharge * pages if has_images else 0)\<close>, where \<open>base\<close> is the
  colored rate of the category when \<open>is_colored\<close> is set and its monochrome rate otherwise.
  The surcharge term is a multiple of the page count and does not mention the color flag.
  The rates are whatever the price lookups return; only the lookups the call performs
  have to succeed. The page count need not be positive for the formula to hold.
\<close>

theorem calculate_subtotal_formula:
  assumes base: "(if is_colored t
                  then get_colored_price cfg (py_lower (service_value (service_type t)))
                  else get_monochrome_price cfg (py_lower (service_value (service_type t))))
                 = Inr base"
    and sur: "has_images t \<Longrightarrow>
              get_image_surcharge cfg (py_lower (service_value (service_type t))) = Inr sur"
  shows "calculate_subtotal cfg t =
           (Inr (base * of_int (pages t) + (if has_images t then sur * of_int (pages t) else 0)),
            t\<lparr>subtotal := base * of_int (pages t)
                              + (if has_images t then sur * of_int (pages t) else 0)\<rparr>)"
proof (cases "has_images t")
  case True
  with base sur show ?thesis
    by (simp add: calculate_subtotal_def Let_def)
next
  case False
  with base show ?thesis
    by (simp add: calculate_subtotal_def Let_def)
qed

text \<open>Five colored pages with images at the default Print rates: 8 * 5 + 2 * 5 = 50.\<close>

theorem calculate_subtotal_formula_witness:
  "calculate_subtotal default_prices ex_print = (Inr 50, ex_print\<lparr>subtotal := 50\<rparr>)"
proof -
  have b: "(if is_colored ex_print
            then get_colored_price default_prices (py_lower (service_value (service_type ex_print)))
            else get_monochrome_price default_prices (py_lower (service_value (service_type ex_print))))
           = Inr 8"
    by code_simp
  have s: "get_image_surcharge default_prices (py_lower (service_value (service_type ex_print))) = Inr 2"
    by code_simp
  have p: "pages ex_print = 5" "has_images ex_print"
    by (simp_all add: ex_print_def Transaction_init_def)
  from calculate_subtotal_formula [OF b s] p show ?thesis by simp
qed

section \<open>Removing by index\<close>

lemma remove_transaction_reports_True: "fst (remove_transaction index c) = True"
  by (simp add: remove_transaction_def)

lemma remove_transaction_outside:
  "\<not> (0 \<le> index \<and> index < int (length (transactions (current_receipt c)))) \<Longrightarrow>
   snd (remove_transaction index c) = c"
  by (auto simp add: remove_transaction_def Receipt_remove_transaction_def)

text \<open>
  Claim C2. The claim wants \<open>remove_transaction(index)\<close> to answer false for an index
  outside the list. The receipt holding one transaction, index 5 is outside; the call
  leaves the controller as it was and answers \<open>True\<close>.
\<close>

theorem remove_out_of_range_returns_True:
  "length (transactions (current_receipt ex_controller1)) = 1 \<and>
   remove_transaction 5 ex_controller1 = (True, ex_controller1)"
  by code_simp

section \<open>Generating a receipt\<close>

text \<open>
  Claim C3. When the current receipt has no transactions, \<open>generate_receipt\<close> raises
  (ValueError, the program's empty-receipt condition) whatever the disk would do, and
  returns neither a path nor a changed controller nor a changed disk: no directory is
  made, no file is written, the current receipt and the history stay as they were.
\<close>

theorem generate_receipt_empty:
  assumes "transactions (current_receipt c) = []"
  shows "generate_receipt fault now c fs =
           (Inl (ValueError ''No transactions to generate receipt for''), c, fs)"
  using assms by (simp add: generate_receipt_def)

theorem generate_receipt_empty_witness:
  "generate_receipt NoFault ex_later ex_controller empty_disk =
     (Inl (ValueError ''No transactions to generate receipt for''), ex_controller, empty_disk)"
proof -
  have "transactions (current_receipt ex_controller) = []"
    by (simp add: ex_controller_def Receipt_init_def)
  from generate_receipt_empty [OF this] show ?thesis .
qed

text \<open>
  Claim C5. For a non-empty current receipt, a call of \<open>generate_receipt\<close> during which
  a file operation fails raises and leaves the controller exactly as it was (same current
  receipt, same history); the history grows and the current receipt is replaced only in
  the call whose write succeeded, and then the file holds the receipt text.
\<close>

theorem generate_receipt_failed_write:
  assumes "transactions (current_receipt c) \<noteq> []"
  shows "(fault \<noteq> NoFault \<longrightarrow>
            (\<exists>fs'. generate_receipt fault now c fs = (Inl OSError, c, fs')))
       \<and> (fault = NoFault \<longrightarrow>
            (\<exists>fs'. generate_receipt fault now c fs =
               (Inr (path_join ''receipts'' (get_receipt_filename (current_receipt c))),
                c\<lparr>receipt_history := receipt_history c @ [current_receipt c],
                  current_receipt := Receipt_init now\<rparr>,
                fs')
             \<and> map_of (text_files fs')
                  (path_join ''receipts'' (get_receipt_filename (current_receipt c)))
                 = Some (generate_receipt_text (current_receipt c))))"
  using assms
  by (cases fault)
     (simp_all add: generate_receipt_def makedirs_def write_text_def Let_def update_Some_unfold)

theorem generate_receipt_failed_write_witness:
  "fst (generate_receipt (WriteFails 10) ex_later ex_controller1 empty_disk) = Inl OSError
   \<and> fst (snd (generate_receipt (WriteFails 10) ex_later ex_controller1 empty_disk)) = ex_controller1
   \<and> fst (generate_receipt NoFault ex_later ex_controller1 empty_disk) =
       Inr (path_join ''receipts'' (get_receipt_filename (current_receipt ex_controller1)))
   \<and> fst (snd (generate_receipt NoFault ex_later ex_controller1 empty_disk)) =
       ex_controller1\<lparr>receipt_history := [current_receipt ex_controller1],
                       current_receipt := Receipt_init ex_later\<rparr>"
proof -
  have ne: "transactions (current_receipt ex_controller1) \<noteq> []"
    by code_simp
  have h: "receipt_history ex_controller1 = []"
    by code_simp
  from generate_receipt_failed_write [OF ne, of "WriteFails 10" ex_later empty_disk]
  have failing: "fst (generate_receipt (WriteFails 10) ex_later ex_controller1 empty_disk) = Inl OSError"
    "fst (snd (generate_receipt (WriteFails 10) ex_later ex_controller1 empty_disk)) = ex_controller1"
    by auto
  from generate_receipt_failed_write [OF ne, of NoFault ex_later empty_disk] h
  have "fst (generate_receipt NoFault ex_later ex_controller1 empty_disk) =
       Inr (path_join ''receipts'' (get_receipt_filename (current_receipt ex_controller1)))"
    "fst (snd (generate_receipt NoFault ex_later ex_controller1 empty_disk)) =
       ex_controller1\<lparr>receipt_history := [current_receipt ex_controller1],
                       current_receipt := Receipt_init ex_later\<rparr>"
    by auto
  with failing show ?thesis by blast
qed

section \<open>The receipt total\<close>


lemma add_recomputes:
  "total (Receipt_add_transaction t r) =
     py_sum (map subtotal (transactions (Receipt_add_transaction t r)))"
  by (simp add: Receipt_add_transaction_def calculate_total_def)

lemma remove_recomputes:
  "0 \<le> index \<and> index < int (length (transactions r)) \<Longrightarrow>
   total (Receipt_remove_transaction index r) =
     py_sum (map subtotal (transactions (Receipt_remove_transaction index r)))"
  by (simp add: Receipt_remove_transaction_def calculate_total_def)

lemma recalculate_recomputes:
  "recalculate_current_transactions c = (Inr (), c') \<Longrightarrow>
   total (current_receipt c') = py_sum (map subtotal (transactions (current_receipt c')))"
  by (auto simp add: recalculate_current_transactions_def calculate_total_def
      split: prod.splits option.splits)

text \<open>Rule induction over the ways a receipt comes about.\<close>

lemma reachable_total:
  "reachable_receipt r \<Longrightarrow> total r = py_sum (map subtotal (transactions r))"
proof (induction rule: reachable_receipt.induct)
  case (fresh now)
  show ?case by (simp add: Receipt_init_def py_sum_def)
next
  case (added r t)
  show ?case by (rule add_recomputes)
next
  case (removed r index)
  show ?case
  proof (cases "0 \<le> index \<and> index < int (length (transactions r))")
    case True
    then show ?thesis by (rule remove_recomputes)
  next
    case False
    with removed.IH show ?thesis by (auto simp add: Receipt_remove_transaction_def)
  qed
next
  case (recalculated c c')
  from recalculated.hyps(2) show ?case by (rule recalculate_recomputes)
qed

lemma add_transaction_reachable:
  "reachable_receipt (current_receipt c) \<Longrightarrow>
   reachable_receipt (current_receipt (snd (add_transaction now st p colored images c)))"
  by (auto simp add: add_transaction_def split: prod.splits sum.splits
      intro: reachable_receipt.added)

lemma remove_transaction_reachable:
  "reachable_receipt (current_receipt c) \<Longrightarrow>
   reachable_receipt (current_receipt (snd (remove_transaction index c)))"
  by (simp add: remove_transaction_def reachable_receipt.removed)

lemma ex_controller_reachable: "reachable_receipt (current_receipt ex_controller)"
  by (simp add: ex_controller_def reachable_receipt.fresh)

lemma ex_controller1_reachable: "reachable_receipt (current_receipt ex_controller1)"
  unfolding ex_controller1_def
  by (intro add_transaction_reachable ex_controller_reachable)

lemma ex_controller2_reachable: "reachable_receipt (current_receipt ex_controller2)"
  unfolding ex_controller2_def
  by (intro add_transaction_reachable ex_controller1_reachable)

section \<open>Adding a transaction\<close>



section \<open>The end-to-end example\<close>

lemma default_table:
  "POSController_init ex_now empty_disk = Inr ex_controller"
  "get_monochrome_price (config ex_controller) ''print'' = Inr 5"
  "get_colored_price (config ex_controller) ''print'' = Inr 8"
  "get_image_surcharge (config ex_controller) ''print'' = Inr 2"
  by code_simp+

lemma first_add:
  "add_transaction ex_now PRINT 5 True True ex_controller =
     (Inr (ex_print\<lparr>subtotal := 50\<rparr>), ex_controller1)"
  "transactions (current_receipt ex_controller1) = [ex_print\<lparr>subtotal := 50\<rparr>]"
  "total (current_receipt ex_controller1) = 50"
  by code_simp+

lemma reprice:
  "fst (update_pricing NoFault ''print'' 6 9 3 ex_controller1 empty_disk) = Inr ()"
  "get_monochrome_price (config ex_repriced) ''print'' = Inr 6"
  "get_colored_price (config ex_repriced) ''print'' = Inr 9"
  "get_image_surcharge (config ex_repriced) ''print'' = Inr 3"
  "current_receipt ex_repriced = current_receipt ex_controller1"
  by code_simp+

lemma recalculate_example:
  "recalculate_current_transactions ex_repriced = (Inr (), ex_recalculated)"
  "transactions (current_receipt ex_recalculated) = [ex_print\<lparr>subtotal := 60\<rparr>]"
  "total (current_receipt ex_recalculated) = 60"
  by code_simp+

text \<open>
  Claim C7. A controller started without a configuration file has the Print rates 5, 8
  and 2. \<open>add_transaction(PRINT, 5, True, True)\<close> returns a transaction of subtotal 50 and
  makes the receipt total 50. \<open>update_pricing('print', 6, 9, 3)\<close> succeeds, sets the
  rates to 6, 9 and 3 and leaves the receipt as it is (still 50);
  \<open>recalculate_current_transactions()\<close> then makes the same transaction's subtotal 60
  and the receipt total 60.
\<close>

theorem default_prices_example:
  "POSController_init ex_now empty_disk = Inr ex_controller
   \<and> get_monochrome_price (config ex_controller) ''print'' = Inr 5
   \<and> get_colored_price (config ex_controller) ''print'' = Inr 8
   \<and> get_image_surcharge (config ex_controller) ''print'' = Inr 2
   \<and> add_transaction ex_now PRINT 5 True True ex_controller =
        (Inr (ex_print\<lparr>subtotal := 50\<rparr>), ex_controller1)
   \<and> transactions (current_receipt ex_controller1) = [ex_print\<lparr>subtotal := 50\<rparr>]
   \<and> total (current_receipt ex_controller1) = 50
   \<and> fst (update_pricing NoFault ''print'' 6 9 3 ex_controller1 empty_disk) = Inr ()
   \<and> ex_repriced = fst (snd (update_pricing NoFault ''print'' 6 9 3 ex_controller1 empty_disk))
   \<and> get_monochrome_price (config ex_repriced) ''print'' = Inr 6
   \<and> get_colored_price (config ex_repriced) ''print'' = Inr 9
   \<and> get_image_surcharge (config ex_repriced) ''print'' = Inr 3
   \<and> current_receipt ex_repriced = current_receipt ex_controller1
   \<and> recalculate_current_transactions ex_repriced = (Inr (), ex_recalculated)
   \<and> transactions (current_receipt ex_recalculated) = [ex_print\<lparr>subtotal := 60\<rparr>]
   \<and> total (current_receipt ex_recalculated) = 60"
  using default_table first_add reprice recalculate_example
  by (simp add: ex_repriced_def)

section \<open>Decimal digits\<close>

lemma digit_val_digit_char: "d < 10 \<Longrightarrow> digit_val (digit_char d) = d"
  by (simp add: digit_val_def digit_char_def)

lemma is_digit_digit_char: "d < 10 \<Longrightarrow> is_digit (digit_char d)"
  by (simp add: is_digit_def digit_char_def)

lemma str_nat_digits: "list_all is_digit (str_nat n)"
proof (induction n rule: str_nat.induct)
  case (1 n)
  show ?case
  proof (cases "n < 10")
    case True
    then show ?thesis by (subst str_nat.simps) (simp add: is_digit_digit_char)
  next
    case False
    with 1 show ?thesis by (subst str_nat.simps) (simp add: is_digit_digit_char)
  qed
qed

lemma str_nat_not_empty: "str_nat n \<noteq> []"
  by (subst str_nat.simps) simp

lemma nat_of_digits_snoc: "nat_of_digits (s @ [c]) = 10 * nat_of_digits s + digit_val c"
  by (simp add: nat_of_digits_def)

text \<open>Reading the digits of a number gives the number back.\<close>

lemma nat_of_digits_str_nat: "nat_of_digits (str_nat n) = n"
proof (induction n rule: str_nat.induct)
  case (1 n)
  show ?case
  proof (cases "n < 10")
    case True
    then show ?thesis
      by (subst str_nat.simps) (simp add: nat_of_digits_def digit_val_digit_char)
  next
    case False
    with 1 have "nat_of_digits (str_nat (n div 10)) = n div 10" by simp
    with False show ?thesis
      by (subst str_nat.simps) (simp add: nat_of_digits_snoc digit_val_digit_char)
  qed
qed

lemma length_str_nat_1: "n < 10 \<Longrightarrow> length (str_nat n) = 1"
  by (subst str_nat.simps) simp

lemma length_str_nat_2: "10 \<le> n \<Longrightarrow> n < 100 \<Longrightarrow> length (str_nat n) = 2"
  by (subst str_nat.simps) (simp add: length_str_nat_1)

lemma length_str_nat_3: "100 \<le> n \<Longrightarrow> n < 1000 \<Longrightarrow> length (str_nat n) = 3"
  by (subst str_nat.simps) (simp add: length_str_nat_2)

lemma length_str_nat_4: "1000 \<le> n \<Longrightarrow> n < 10000 \<Longrightarrow> length (str_nat n) = 4"
  by (subst str_nat.simps) (simp add: length_str_nat_3)

lemma length_pad2: "n < 100 \<Longrightarrow> length (pad2 n) = 2"
  by (cases "n < 10") (simp_all add: pad2_def length_str_nat_1 length_str_nat_2)


lemma nat_of_digits_pad2: "nat_of_digits (pad2 n) = n"
proof -
  have "nat_of_digits (CHR ''0'' # s) = nat_of_digits s" for s
    by (simp add: nat_of_digits_def digit_val_def)
  then show ?thesis by (simp add: pad2_def nat_of_digits_str_nat)
qed

section \<open>The export file name\<close>

lemma strftime_filename:
  "strftime d ''%m-%d-%Y_%H-%M-%S'' =
     pad2 (month d) @ ''-'' @ pad2 (day d) @ ''-'' @ str_nat (year d) @ ''_'' @
     pad2 (hour d) @ ''-'' @ pad2 (minute d) @ ''-'' @ pad2 (second d)"
  by (simp add: directive_def)

lemma filename_fields:
  "get_receipt_filename r =
     ''Receipt_'' @ pad2 (month (Receipt.timestamp r)) @ ''-'' @
     pad2 (day (Receipt.timestamp r)) @ ''-'' @ str_nat (year (Receipt.timestamp r)) @ ''_'' @
     pad2 (hour (Receipt.timestamp r)) @ ''-'' @ pad2 (minute (Receipt.timestamp r)) @ ''-'' @
     pad2 (second (Receipt.timestamp r)) @ ''.txt''"
  by (simp add: get_receipt_filename_def Let_def directive_def)

lemma filename_length:
  assumes "valid_datetime (Receipt.timestamp r)"
  shows "length (get_receipt_filename r) = 31"
proof -
  from assms have "length (pad2 (month (Receipt.timestamp r))) = 2"
    "length (pad2 (day (Receipt.timestamp r))) = 2"
    "length (str_nat (year (Receipt.timestamp r))) = 4"
    "length (pad2 (hour (Receipt.timestamp r))) = 2"
    "length (pad2 (minute (Receipt.timestamp r))) = 2"
    "length (pad2 (second (Receipt.timestamp r))) = 2"
    by (simp_all add: valid_datetime_def length_pad2 length_str_nat_4)
  then show ?thesis by (simp add: filename_fields)
qed

lemma filename_kept:
  "get_receipt_filename (Receipt_add_transaction t r) = get_receipt_filename r"
  "get_receipt_filename (Receipt_remove_transaction index r) = get_receipt_filename r"
  by (simp_all add: get_receipt_filename_def Receipt_add_transaction_def
      Receipt_remove_transaction_def calculate_total_def)

lemma generate_receipt_path:
  "transactions (current_receipt c) \<noteq> [] \<Longrightarrow>
   fst (generate_receipt NoFault now c fs) =
     Inr (''receipts/'' @ get_receipt_filename (current_receipt c))"
  by (simp add: generate_receipt_def makedirs_def write_text_def Let_def path_join_def)

text \<open>
  Claim C9. The export file name is \<open>Receipt_\<close>, then month, day, year, hour, minute and
  second of the receipt's own timestamp as \<open>MM-DD-YYYY_HH-MM-SS\<close> (two digits each, four for
  the year; 31 characters in all for a timestamp \<open>datetime.now()\<close> can return), then
  \<open>.txt\<close>. The timestamp is the time the receipt was created; adding and removing
  transactions keep the name, and \<open>generate_receipt\<close> called at any later time \<open>now\<close>
  writes to \<open>receipts/\<close> plus that name, in which \<open>now\<close> has no part.
\<close>

theorem receipt_filename_from_creation_time:
  "get_receipt_filename r =
     ''Receipt_'' @ pad2 (month (Receipt.timestamp r)) @ ''-'' @
     pad2 (day (Receipt.timestamp r)) @ ''-'' @ str_nat (year (Receipt.timestamp r)) @ ''_'' @
     pad2 (hour (Receipt.timestamp r)) @ ''-'' @ pad2 (minute (Receipt.timestamp r)) @ ''-'' @
     pad2 (second (Receipt.timestamp r)) @ ''.txt''
   \<and> (valid_datetime (Receipt.timestamp r) \<longrightarrow>
        length (get_receipt_filename r) = 31
        \<and> length (pad2 (month (Receipt.timestamp r))) = 2
        \<and> length (pad2 (day (Receipt.timestamp r))) = 2
        \<and> length (str_nat (year (Receipt.timestamp r))) = 4
        \<and> length (pad2 (hour (Receipt.timestamp r))) = 2
        \<and> length (pad2 (minute (Receipt.timestamp r))) = 2
        \<and> length (pad2 (second (Receipt.timestamp r))) = 2)
   \<and> Receipt.timestamp (Receipt_init created) = created
   \<and> get_receipt_filename (Receipt_add_transaction t r) = get_receipt_filename r
   \<and> get_receipt_filename (Receipt_remove_transaction index r) = get_receipt_filename r
   \<and> (transactions (current_receipt c) \<noteq> [] \<longrightarrow>
        fst (generate_receipt NoFault now c fs) =
          Inr (''receipts/'' @ get_receipt_filename (current_receipt c)))"
  using filename_fields [of r] filename_length [of r] filename_kept
    generate_receipt_path [of c now fs]
  by (simp add: valid_datetime_def length_pad2 length_str_nat_4 Receipt_init_def)

text \<open>A receipt created at 13:07:09 and exported at 18:30:00 is named after 13:07:09.\<close>

theorem receipt_filename_from_creation_time_witness:
  "Receipt.timestamp (current_receipt ex_controller1) = ex_now
   \<and> fst (generate_receipt NoFault ex_later ex_controller1 empty_disk) =
       Inr ''receipts/Receipt_03-05-2024_13-07-09.txt''
   \<and> length (get_receipt_filename (current_receipt ex_controller1)) = 31"
proof -
  have v: "valid_datetime (Receipt.timestamp (current_receipt ex_controller1))"
    by code_simp
  have ne: "transactions (current_receipt ex_controller1) \<noteq> []"
    by code_simp
  have ts: "Receipt.timestamp (current_receipt ex_controller1) = ex_now"
    by code_simp
  have digits: "pad2 3 = ''03''" "pad2 5 = ''05''" "str_nat 2024 = ''2024''" "pad2 13 = ''13''"
    "pad2 7 = ''07''" "pad2 9 = ''09''"
    by code_simp+
  from receipt_filename_from_creation_time
    [where r = "current_receipt ex_controller1" and c = ex_controller1 and now = ex_later
      and fs = empty_disk] v ne
  have "get_receipt_filename (current_receipt ex_controller1) =
          ''Receipt_'' @ pad2 3 @ ''-'' @ pad2 5 @ ''-'' @ str_nat 2024 @ ''_'' @
          pad2 13 @ ''-'' @ pad2 7 @ ''-'' @ pad2 9 @ ''.txt''"
    and "length (get_receipt_filename (current_receipt ex_controller1)) = 31"
    and "fst (generate_receipt NoFault ex_later ex_controller1 empty_disk) =
          Inr (''receipts/'' @ get_receipt_filename (current_receipt ex_controller1))"
    by (simp_all add: ts ex_now_def)
  with ts digits show ?thesis by simp
qed

section \<open>The receipt text\<close>



















section \<open>Loading the persisted configuration\<close>









lemma option_names_lower:
  "py_lower ''monochrome_price'' = ''monochrome_price''"
  "py_lower ''colored_price'' = ''colored_price''"
  "py_lower ''image_surcharge'' = ''image_surcharge''"
  by code_simp+






section \<open>Prices written by the program can be read back\<close>

lemma frac_digits_digits: "0 \<le> f \<Longrightarrow> f < 1 \<Longrightarrow> list_all is_digit (frac_digits k f)"
proof (induction k arbitrary: f)
  case 0
  then show ?case by simp
next
  case (Suc k)
  show ?case
  proof (cases "f = 0")
    case True
    then show ?thesis by simp
  next
    case False
    let ?d = "nat \<lfloor>f * 10\<rfloor>"
    from Suc.prems have lo: "0 \<le> \<lfloor>f * 10\<rfloor>" by simp
    from Suc.prems have "f * 10 < 10" by simp
    then have hi: "\<lfloor>f * 10\<rfloor> < 10" by (simp add: floor_less_iff)
    from lo hi have d: "?d < 10" by linarith
    have eq: "(of_nat ?d :: rat) = of_int \<lfloor>f * 10\<rfloor>" using lo by simp
    have r0: "0 \<le> f * 10 - of_nat ?d" unfolding eq by linarith
    have r1: "f * 10 - of_nat ?d < 1" unfolding eq by linarith
    from Suc.IH [OF r0 r1] d False show ?thesis
      by (simp add: Let_def is_digit_digit_char)
  qed
qed

lemma not_digit_point: "\<not> is_digit CHR ''.''"
  by (simp add: is_digit_def)

lemma takeWhile_digits:
  "list_all is_digit ds \<Longrightarrow> takeWhile is_digit (ds @ CHR ''.'' # r) = ds"
  by (induction ds) (simp_all add: not_digit_point)

lemma dropWhile_digits:
  "list_all is_digit ds \<Longrightarrow> dropWhile is_digit (ds @ CHR ''.'' # r) = CHR ''.'' # r"
  by (induction ds) (simp_all add: not_digit_point)

lemma takeWhile_all: "list_all P xs \<Longrightarrow> takeWhile P xs = xs"
  by (induction xs) simp_all

lemma dropWhile_all: "list_all P xs \<Longrightarrow> dropWhile P xs = []"
  by (induction xs) simp_all

lemma parse_unsigned_positional:
  assumes "list_all is_digit ds" and "ds \<noteq> []" and "list_all is_digit fd"
  shows "parse_unsigned (ds @ CHR ''.'' # fd) \<noteq> None"
  using assms
  by (simp add: parse_unsigned_def Let_def takeWhile_digits dropWhile_digits takeWhile_all
      dropWhile_all parse_exponent_def)

lemma digit_not_space: "is_digit c \<Longrightarrow> \<not> is_space c"
  by (auto simp add: is_digit_def is_space_def Let_def)

lemma strip_id:
  assumes "s \<noteq> []" and "\<not> is_space (hd s)" and "\<not> is_space (last s)"
  shows "strip s = s"
proof -
  from assms have a: "dropWhile is_space s = s" by (cases s) simp_all
  from assms have "rev s \<noteq> []" "\<not> is_space (hd (rev s))" by (simp_all add: hd_rev)
  then have "dropWhile is_space (rev s) = rev s" by (cases "rev s") simp_all
  with a show ?thesis by (simp add: strip_def)
qed


lemma not_space_misc: "\<not> is_space CHR ''-''" "\<not> is_space CHR ''.''"
  by (simp_all add: is_space_def)

lemma digit_not_sign: "is_digit c \<Longrightarrow> c \<noteq> CHR ''-'' \<and> c \<noteq> CHR ''+''"
  by (auto simp add: is_digit_def)

lemma float_of_positional:
  assumes ds: "list_all is_digit ds" "ds \<noteq> []" and fd: "list_all is_digit fd"
  shows "float_of_string (ds @ CHR ''.'' # fd) \<noteq> None"
    and "float_of_string (CHR ''-'' # ds @ CHR ''.'' # fd) \<noteq> None"
proof -
  let ?s = "ds @ CHR ''.'' # fd"
  from ds obtain c t where c: "ds = c # t" "is_digit c" by (cases ds) auto
  have last_ok: "\<not> is_space (last ?s)"
  proof (cases "fd = []")
    case True
    then show ?thesis by (simp add: not_space_misc)
  next
    case False
    with fd have "is_digit (last fd)" by (simp add: list_all_iff)
    with False show ?thesis by (simp add: digit_not_space)
  qed
  have hd_ok: "\<not> is_space (hd ?s)" using c by (simp add: digit_not_space)
  have s1: "strip ?s = ?s" using hd_ok last_ok by (intro strip_id) simp_all
  have s2: "strip (CHR ''-'' # ?s) = CHR ''-'' # ?s"
    using last_ok by (intro strip_id) (simp_all add: not_space_misc)
  from parse_unsigned_positional [OF ds fd] have p: "parse_unsigned ?s \<noteq> None" .
  from c have cs: "?s = c # (t @ CHR ''.'' # fd)" by simp
  from digit_not_sign [OF c(2)] p show "float_of_string ?s \<noteq> None"
    unfolding float_of_string_def s1 by (simp add: cs)
  from p show "float_of_string (CHR ''-'' # ?s) \<noteq> None"
    unfolding float_of_string_def s2 by simp
qed

text \<open>The text \<open>str\<close> writes for a price is text \<open>float\<close> reads.\<close>

lemma float_of_str_float: "float_of_string (str_float x) \<noteq> None"
proof -
  let ?a = "\<bar>x\<bar>"
  let ?ip = "nat \<lfloor>?a\<rfloor>"
  let ?f = "?a - of_nat ?ip"
  let ?fd = "if ?f = 0 then ''0'' else frac_digits 17 ?f"
  have ip: "(of_nat ?ip :: rat) = of_int \<lfloor>?a\<rfloor>" by simp
  have f0: "0 \<le> ?f" unfolding ip by linarith
  have f1: "?f < 1" unfolding ip by linarith
  have fd: "list_all is_digit ?fd"
    using frac_digits_digits [OF f0 f1] by (simp add: is_digit_def)
  have s: "str_float x = (if x < 0 then ''-'' else []) @ str_nat ?ip @ CHR ''.'' # ?fd"
    by (simp add: str_float_def Let_def)
  show ?thesis
  proof (cases "x < 0")
    case True
    with float_of_positional(2) [OF str_nat_digits str_nat_not_empty fd, of ?ip]
    show ?thesis unfolding s by simp
  next
    case False
    with float_of_positional(1) [OF str_nat_digits str_nat_not_empty fd, of ?ip]
    show ?thesis unfolding s by simp
  qed
qed

section \<open>When a subtotal can be computed\<close>

lemma getfloat_own:
  assumes "own_option cp s (py_lower k) = Some v"
  shows "getfloat cp s k fb = convert v"
  using assms
  by (auto simp add: own_option_def getfloat_def get_option_def split: option.splits)

lemma service_sections:
  "section_of t = ''PRINT'' \<or> section_of t = ''PHOTOCOPY'' \<or> section_of t = ''SCAN''"
proof -
  have "py_upper (py_lower (service_value PRINT)) = ''PRINT''"
    "py_upper (py_lower (service_value PHOTOCOPY)) = ''PHOTOCOPY''"
    "py_upper (py_lower (service_value SCAN)) = ''SCAN''"
    by code_simp+
  then show ?thesis by (cases "service_type t") (simp_all add: section_of_def)
qed

lemma seeded_own:
  assumes "seeded cp"
  shows "\<exists>a b c. own_option cp (section_of t) ''monochrome_price'' = Some a
           \<and> own_option cp (section_of t) ''colored_price'' = Some b
           \<and> own_option cp (section_of t) ''image_surcharge'' = Some c"
  using assms service_sections [of t] by (auto simp add: seeded_def)

lemma convert_ok: "(\<exists>x. convert v = Inr x) \<longleftrightarrow> float_of_string v \<noteq> None"
  by (auto simp add: convert_def split: option.splits)

lemma price_lookups:
  assumes "seeded (PriceConfig.config cfg)"
  shows "(\<exists>x. get_monochrome_price cfg (py_lower (service_value (service_type t))) = Inr x)
           \<longleftrightarrow> option_parses (PriceConfig.config cfg) (section_of t) ''monochrome_price''"
    and "(\<exists>x. get_colored_price cfg (py_lower (service_value (service_type t))) = Inr x)
           \<longleftrightarrow> option_parses (PriceConfig.config cfg) (section_of t) ''colored_price''"
    and "(\<exists>x. get_image_surcharge cfg (py_lower (service_value (service_type t))) = Inr x)
           \<longleftrightarrow> option_parses (PriceConfig.config cfg) (section_of t) ''image_surcharge''"
proof -
  from seeded_own [OF assms, of t] obtain a b c where
    o: "own_option (PriceConfig.config cfg) (section_of t) ''monochrome_price'' = Some a"
       "own_option (PriceConfig.config cfg) (section_of t) ''colored_price'' = Some b"
       "own_option (PriceConfig.config cfg) (section_of t) ''image_surcharge'' = Some c"
    by blast
  from o(1) have 1: "getfloat (PriceConfig.config cfg) (section_of t) ''monochrome_price'' fb = convert a" for fb
    by (intro getfloat_own) (simp add: option_names_lower)
  from o(2) have 2: "getfloat (PriceConfig.config cfg) (section_of t) ''colored_price'' fb = convert b" for fb
    by (intro getfloat_own) (simp add: option_names_lower)
  from o(3) have 3: "getfloat (PriceConfig.config cfg) (section_of t) ''image_surcharge'' fb = convert c" for fb
    by (intro getfloat_own) (simp add: option_names_lower)
  show "(\<exists>x. get_monochrome_price cfg (py_lower (service_value (service_type t))) = Inr x)
           \<longleftrightarrow> option_parses (PriceConfig.config cfg) (section_of t) ''monochrome_price''"
    using 1 o(1) by (simp add: get_monochrome_price_def section_of_def [symmetric] convert_ok option_parses_def)
  show "(\<exists>x. get_colored_price cfg (py_lower (service_value (service_type t))) = Inr x)
           \<longleftrightarrow> option_parses (PriceConfig.config cfg) (section_of t) ''colored_price''"
    using 2 o(2) by (simp add: get_colored_price_def section_of_def [symmetric] convert_ok option_parses_def)
  show "(\<exists>x. get_image_surcharge cfg (py_lower (service_value (service_type t))) = Inr x)
           \<longleftrightarrow> option_parses (PriceConfig.config cfg) (section_of t) ''image_surcharge''"
    using 3 o(3) by (simp add: get_image_surcharge_def section_of_def [symmetric] convert_ok option_parses_def)
qed

lemma calculate_subtotal_fields:
  assumes "calculate_subtotal cfg t = (res, t')"
  shows "service_type t' = service_type t \<and> is_colored t' = is_colored t
         \<and> has_images t' = has_images t \<and> pages t' = pages t"
  using assms
  by (auto simp add: calculate_subtotal_def Let_def split: sum.splits if_splits)

lemma priced_fields:
  assumes "service_type t' = service_type t" "is_colored t' = is_colored t"
    "has_images t' = has_images t"
  shows "priced cp t' = priced cp t"
  using assms by (simp add: priced_def section_of_def)

text \<open>With the service sections in place, a subtotal is computed exactly when its prices parse.\<close>

lemma calculate_subtotal_succeeds:
  assumes "seeded (PriceConfig.config cfg)"
  shows "(\<exists>v. fst (calculate_subtotal cfg t) = Inr v) \<longleftrightarrow> priced (PriceConfig.config cfg) t"
proof -
  note L = price_lookups [OF assms, of t]
  show ?thesis
  proof (cases "is_colored t")
    case True
    show ?thesis
    proof (cases "has_images t")
      case img: True
      with True L(2) L(3) show ?thesis
        by (auto simp add: calculate_subtotal_def Let_def priced_def split: sum.splits)
    next
      case False
      with True L(2) show ?thesis
        by (auto simp add: calculate_subtotal_def Let_def priced_def split: sum.splits)
    qed
  next
    case False
    show ?thesis
    proof (cases "has_images t")
      case True
      with False L(1) L(3) show ?thesis
        by (auto simp add: calculate_subtotal_def Let_def priced_def split: sum.splits)
    next
      case img: False
      with False L(1) show ?thesis
        by (auto simp add: calculate_subtotal_def Let_def priced_def split: sum.splits)
    qed
  qed
qed

section \<open>What changes of the price table keep\<close>

text \<open>A setter keeps every option a section holds, and what it writes parses.\<close>

lemma set_price_keeps:
  assumes sp: "set_price option service price pc = Inr pc'"
    and own: "own_option (PriceConfig.config pc) s k = Some v"
  shows "\<exists>v'. own_option (PriceConfig.config pc') s k = Some v'
              \<and> (float_of_string v \<noteq> None \<longrightarrow> float_of_string v' \<noteq> None)"
proof -
  let ?section = "py_upper service"
  let ?old = "PriceConfig.config pc"
  let ?cp = "if \<not> has_section ?old ?section then set_section ?section [] ?old else ?old"
  have own1: "own_option ?cp s k = Some v"
  proof (cases "has_section ?old ?section")
    case True
    with own show ?thesis by simp
  next
    case False
    then have ne: "?section \<noteq> ''DEFAULT''" and absent: "map_of (sections ?old) ?section = None"
      by (simp_all add: has_section_def)
    from own absent have "s \<noteq> ?section" by (auto simp add: own_option_def)
    with own False ne show ?thesis
      by (simp add: own_option_def set_section_def update_conv')
  qed
  from sp obtain cp' where so: "set_option ?section option (str_float price) ?cp = Inr cp'"
    and pc': "pc' = pc\<lparr>PriceConfig.config := cp'\<rparr>"
    by (auto simp add: set_price_def Let_def split: sum.splits)
  show ?thesis
  proof (cases "?section = [] \<or> ?section = ''DEFAULT''")
    case True
    with so have "sections cp' = sections ?cp" by (auto simp add: set_option_def)
    with own1 have "own_option cp' s k = Some v" by (simp add: own_option_def)
    then show ?thesis by (simp add: pc')
  next
    case False
    with so obtain sd where sd: "map_of (sections ?cp) ?section = Some sd"
      and cp': "sections cp' =
                  AList.update ?section (AList.update (py_lower option) (str_float price) sd)
                    (sections ?cp)"
      by (auto simp add: set_option_def split: option.splits)
    show ?thesis
    proof (cases "s = ?section \<and> k = py_lower option")
      case True
      then have "own_option cp' s k = Some (str_float price)"
        by (simp add: own_option_def cp' update_conv')
      with float_of_str_float [of price] show ?thesis by (auto simp add: pc')
    next
      case False
      with own1 sd have "own_option cp' s k = Some v"
        by (auto simp add: own_option_def cp' update_conv')
      then show ?thesis by (simp add: pc')
    qed
  qed
qed

lemma set_price_seeded:
  assumes "set_price option service price pc = Inr pc'" and "seeded (PriceConfig.config pc)"
  shows "seeded (PriceConfig.config pc')"
  using assms(2) set_price_keeps [OF assms(1)]
  unfolding seeded_def list_all_iff by (metis not_Some_eq)

lemma set_price_parses:
  assumes "set_price option service price pc = Inr pc'"
    and "option_parses (PriceConfig.config pc) s k"
  shows "option_parses (PriceConfig.config pc') s k"
proof -
  from assms(2) obtain v where v: "own_option (PriceConfig.config pc) s k = Some v"
    "float_of_string v \<noteq> None"
    by (auto simp add: option_parses_def split: option.splits)
  from set_price_keeps [OF assms(1) v(1)] v(2) show ?thesis
    by (auto simp add: option_parses_def)
qed

lemma set_price_priced:
  assumes "set_price option service price pc = Inr pc'"
    and "priced (PriceConfig.config pc) t"
  shows "priced (PriceConfig.config pc') t"
  using assms(2) set_price_parses [OF assms(1)]
  by (auto simp add: priced_def split: if_splits)

text \<open>Reading a file keeps every option a section holds.\<close>

lemma read_options_keeps:
  assumes "read_options sect added kvs cur = Inr cur'" and "map_of cur k \<noteq> None"
  shows "map_of cur' k \<noteq> None"
  using assms
proof (induction kvs arbitrary: added cur)
  case Nil
  then show ?case by simp
next
  case (Cons kv kvs)
  obtain a b where kv: "kv = (a, b)" by (cases kv)
  from Cons.prems(1) have r: "read_options sect (py_lower a # added) kvs (AList.update (py_lower a) b cur) = Inr cur'"
    by (auto simp add: kv Let_def split: if_splits)
  from Cons.prems(2) have "map_of (AList.update (py_lower a) b cur) k \<noteq> None"
    by (simp add: update_conv')
  from Cons.IH [OF r this] show ?case .
qed

lemma read_sections_keeps:
  assumes "read_sections seen dadded f cp = Inr cp'" and "own_option cp s k \<noteq> None"
  shows "own_option cp' s k \<noteq> None"
  using assms
proof (induction f arbitrary: seen dadded cp)
  case Nil
  then show ?case by simp
next
  case (Cons x rest)
  obtain n kvs where x: "x = (n, kvs)" by (cases x)
  show ?case
  proof (cases "map_of (sections cp) n")
    case (Some cur)
    with Cons.prems(1) obtain cur' where ro: "read_options n [] kvs cur = Inr cur'"
      and rs: "read_sections (n # seen) dadded rest
                 (cp\<lparr>sections := AList.update n cur' (sections cp)\<rparr>) = Inr cp'"
      by (auto simp add: x split: if_splits sum.splits)
    have "own_option (cp\<lparr>sections := AList.update n cur' (sections cp)\<rparr>) s k \<noteq> None"
    proof (cases "s = n")
      case True
      with Cons.prems(2) Some have "map_of cur k \<noteq> None" by (simp add: own_option_def)
      from read_options_keeps [OF ro this] True show ?thesis
        by (simp add: own_option_def update_conv')
    next
      case False
      with Cons.prems(2) show ?thesis by (simp add: own_option_def update_conv')
    qed
    from Cons.IH [OF rs this] show ?thesis .
  next
    case None
    with Cons.prems(2) have ne: "s \<noteq> n" by (auto simp add: own_option_def)
    show ?thesis
    proof (cases "n = ''DEFAULT''")
      case True
      with None Cons.prems(1) obtain cur' where
        rs: "read_sections seen (map (py_lower \<circ> fst) kvs @ dadded) rest (cp\<lparr>defaults := cur'\<rparr>) = Inr cp'"
        by (auto simp add: x split: sum.splits)
      from Cons.prems(2) have "own_option (cp\<lparr>defaults := cur'\<rparr>) s k \<noteq> None"
        by (simp add: own_option_def)
      from Cons.IH [OF rs this] show ?thesis .
    next
      case False
      with None Cons.prems(1) obtain cur' where
        rs: "read_sections (n # seen) dadded rest
               (cp\<lparr>sections := AList.update n cur' (sections cp)\<rparr>) = Inr cp'"
        by (auto simp add: x split: sum.splits)
      from Cons.prems(2) ne
      have "own_option (cp\<lparr>sections := AList.update n cur' (sections cp)\<rparr>) s k \<noteq> None"
        by (simp add: own_option_def update_conv')
      from Cons.IH [OF rs this] show ?thesis .
    qed
  qed
qed

lemma default_seeded: "seeded (PriceConfig.config default_prices)"
  by code_simp

lemma init_seeded:
  assumes "PriceConfig_init file persisted = Inr pc"
  shows "seeded (PriceConfig.config pc)"
proof -
  let ?start = "load_default_config \<lparr>config_file = file, config = new_parser\<rparr>"
  have cp0: "PriceConfig.config ?start = PriceConfig.config default_prices"
    by (simp add: load_default_config_def default_prices_def)
  show ?thesis
  proof (cases persisted)
    case None
    with assms have "pc = ?start" by (simp add: PriceConfig_init_def load_config_def)
    with cp0 default_seeded show ?thesis by simp
  next
    case (Some f)
    with assms obtain cp' where rs: "read_sections [] [] f (PriceConfig.config default_prices) = Inr cp'"
      and pc: "PriceConfig.config pc = cp'"
      by (auto simp add: PriceConfig_init_def load_config_def read_file_def cp0 split: sum.splits)
    from default_seeded read_sections_keeps [OF rs] show ?thesis
      unfolding pc seeded_def list_all_iff by blast
  qed
qed

section \<open>Every controller the program can hold\<close>

lemma recalculate_loop_priced:
  assumes "seeded (PriceConfig.config cfg)" and "list_all (priced (PriceConfig.config cfg)) ts"
  shows "\<exists>ts'. recalculate_loop cfg ts = (None, ts')
               \<and> list_all (priced (PriceConfig.config cfg)) ts'"
  using assms(2)
proof (induction ts)
  case Nil
  then show ?case by simp
next
  case (Cons t ts)
  from Cons.prems have pt: "priced (PriceConfig.config cfg) t"
    and rest: "list_all (priced (PriceConfig.config cfg)) ts"
    by simp_all
  obtain res t' where cs0: "calculate_subtotal cfg t = (res, t')"
    by (cases "calculate_subtotal cfg t")
  from calculate_subtotal_succeeds [OF assms(1), of t] pt
  obtain v where "fst (calculate_subtotal cfg t) = Inr v" by blast
  with cs0 have cs: "calculate_subtotal cfg t = (Inr v, t')" by simp
  from calculate_subtotal_fields [OF cs] have "priced (PriceConfig.config cfg) t' = priced (PriceConfig.config cfg) t"
    by (intro priced_fields) simp_all
  with pt have pt': "priced (PriceConfig.config cfg) t'" by simp
  from Cons.IH [OF rest] obtain ts' where "recalculate_loop cfg ts = (None, ts')"
    and "list_all (priced (PriceConfig.config cfg)) ts'"
    by blast
  with cs pt' show ?case by simp
qed

lemma calculate_total_reachable:
  assumes "reachable_receipt r"
  shows "calculate_total r = r"
  using reachable_total [OF assms] by (simp add: calculate_total_def)

lemma controller_ok_update_pricing:
  assumes ok: "controller_ok c"
  shows "controller_ok (fst (snd (update_pricing fault service m col sur c fs)))"
proof -
  have step: "controller_ok (c\<lparr>config := pc'\<rparr>)"
    if "seeded (PriceConfig.config pc')"
      and "\<And>t. priced (PriceConfig.config (config c)) t \<Longrightarrow> priced (PriceConfig.config pc') t"
    for pc'
    using ok that by (auto simp add: controller_ok_def list_all_iff)
  show ?thesis
  proof (cases "set_monochrome_price service m (config c)")
    case (Inl e)
    with ok show ?thesis by (simp add: update_pricing_def)
  next
    case (Inr pc1)
    then have s1: "set_price ''monochrome_price'' service m (config c) = Inr pc1"
      by (simp add: set_monochrome_price_def)
    have k1: "seeded (PriceConfig.config pc1)"
      using set_price_seeded [OF s1] ok by (simp add: controller_ok_def)
    have p1: "priced (PriceConfig.config pc1) t" if "priced (PriceConfig.config (config c)) t" for t
      using set_price_priced [OF s1 that] .
    show ?thesis
    proof (cases "set_colored_price service col pc1")
      case (Inl e)
      with Inr step [OF k1 p1] show ?thesis by (simp add: update_pricing_def)
    next
      case inr2: (Inr pc2)
      then have s2: "set_price ''colored_price'' service col pc1 = Inr pc2"
        by (simp add: set_colored_price_def)
      have k2: "seeded (PriceConfig.config pc2)" using set_price_seeded [OF s2 k1] .
      have p2: "priced (PriceConfig.config pc2) t" if "priced (PriceConfig.config (config c)) t" for t
        using set_price_priced [OF s2 p1 [OF that]] .
      show ?thesis
      proof (cases "set_image_surcharge service sur pc2")
        case (Inl e)
        with Inr inr2 step [OF k2 p2] show ?thesis by (simp add: update_pricing_def)
      next
        case inr3: (Inr pc3)
        then have s3: "set_price ''image_surcharge'' service sur pc2 = Inr pc3"
          by (simp add: set_image_surcharge_def)
        have k3: "seeded (PriceConfig.config pc3)" using set_price_seeded [OF s3 k2] .
        have p3: "priced (PriceConfig.config pc3) t" if "priced (PriceConfig.config (config c)) t" for t
          using set_price_priced [OF s3 p2 [OF that]] .
        from Inr inr2 inr3 step [OF k3 p3] show ?thesis
          by (simp add: update_pricing_def split: prod.splits)
      qed
    qed
  qed
qed

lemma fresh_ok:
  "transactions (Receipt_init now) = []" "reachable_receipt (Receipt_init now)"
  by (simp_all add: Receipt_init_def [of now, symmetric] reachable_receipt.fresh)
    (simp add: Receipt_init_def)

lemma controller_ok_init:
  assumes "POSController_init now fs = Inr c"
  shows "controller_ok c"
proof -
  from assms obtain pc where
    pc: "PriceConfig_init ''config.ini'' (map_of (ini_files fs) ''config.ini'') = Inr pc"
    and c: "c = \<lparr>config = pc, current_receipt = Receipt_init now, receipt_history = []\<rparr>"
    by (auto simp add: POSController_init_def split: sum.splits)
  from init_seeded [OF pc] show ?thesis
    by (simp add: c controller_ok_def fresh_ok)
qed

lemma controller_ok_add:
  assumes ok: "controller_ok c"
  shows "controller_ok (snd (add_transaction now st p colored images c))"
proof -
  let ?t0 = "Transaction_init now st p colored images"
  obtain res t where cs: "calculate_subtotal (config c) ?t0 = (res, t)"
    by (cases "calculate_subtotal (config c) ?t0")
  show ?thesis
  proof (cases res)
    case (Inl e)
    with cs ok show ?thesis by (simp add: add_transaction_def)
  next
    case (Inr v)
    from ok have k: "seeded (PriceConfig.config (config c))"
      and r: "reachable_receipt (current_receipt c)"
      and p: "list_all (priced (PriceConfig.config (config c))) (transactions (current_receipt c))"
      by (simp_all add: controller_ok_def)
    from calculate_subtotal_succeeds [OF k, of ?t0] cs Inr
    have "priced (PriceConfig.config (config c)) ?t0" by auto
    moreover from calculate_subtotal_fields [OF cs]
    have "priced (PriceConfig.config (config c)) t = priced (PriceConfig.config (config c)) ?t0"
      by (intro priced_fields) simp_all
    ultimately have pt: "priced (PriceConfig.config (config c)) t" by simp
    have ts: "transactions (Receipt_add_transaction t (current_receipt c)) =
                transactions (current_receipt c) @ [t]"
      by (simp add: Receipt_add_transaction_def calculate_total_def)
    from cs Inr have c': "snd (add_transaction now st p colored images c) =
        c\<lparr>current_receipt := Receipt_add_transaction t (current_receipt c)\<rparr>"
      by (simp add: add_transaction_def)
    show ?thesis
      unfolding c' controller_ok_def using k p pt reachable_receipt.added [OF r, of t]
      by (simp add: ts)
  qed
qed

lemma list_all_without:
  "list_all P xs \<Longrightarrow> list_all P (take n xs @ drop (Suc n) xs)"
  by (auto simp add: list_all_iff dest: in_set_takeD in_set_dropD)

lemma controller_ok_remove:
  assumes ok: "controller_ok c"
  shows "controller_ok (snd (remove_transaction index c))"
proof -
  from ok have k: "seeded (PriceConfig.config (config c))"
    and r: "reachable_receipt (current_receipt c)"
    and p: "list_all (priced (PriceConfig.config (config c))) (transactions (current_receipt c))"
    by (simp_all add: controller_ok_def)
  have "list_all (priced (PriceConfig.config (config c)))
          (transactions (Receipt_remove_transaction index (current_receipt c)))"
    using p list_all_without [OF p]
    by (simp add: Receipt_remove_transaction_def calculate_total_def)
  with k reachable_receipt.removed [OF r, of index] show ?thesis
    by (simp add: remove_transaction_def controller_ok_def)
qed

lemma controller_ok_fresh:
  assumes "controller_ok c"
  shows "controller_ok (c\<lparr>current_receipt := Receipt_init now\<rparr>)"
    and "controller_ok (c\<lparr>receipt_history := h, current_receipt := Receipt_init now\<rparr>)"
  using assms by (simp_all add: controller_ok_def fresh_ok)

lemma controller_ok_generate:
  assumes ok: "controller_ok c"
  shows "controller_ok (fst (snd (generate_receipt fault now c fs)))"
proof -
  have "fst (snd (generate_receipt fault now c fs)) = c
      \<or> fst (snd (generate_receipt fault now c fs)) =
          c\<lparr>receipt_history := receipt_history c @ [current_receipt c],
            current_receipt := Receipt_init now\<rparr>"
    by (cases fault)
       (simp_all add: generate_receipt_def makedirs_def write_text_def Let_def)
  with ok controller_ok_fresh(2) [OF ok] show ?thesis by metis
qed

lemma controller_ok_total:
  assumes ok: "controller_ok c"
  shows "controller_ok (snd (get_current_total c))"
proof -
  from ok have "reachable_receipt (current_receipt c)" by (simp add: controller_ok_def)
  from calculate_total_reachable [OF this] ok show ?thesis
    by (simp add: get_current_total_def Let_def)
qed

lemma controller_ok_recalculate:
  assumes ok: "controller_ok c"
  shows "fst (recalculate_current_transactions c) = Inr ()"
    and "controller_ok (snd (recalculate_current_transactions c))"
proof -
  from ok have k: "seeded (PriceConfig.config (config c))"
    and p: "list_all (priced (PriceConfig.config (config c))) (transactions (current_receipt c))"
    and r: "reachable_receipt (current_receipt c)"
    by (simp_all add: controller_ok_def)
  from recalculate_loop_priced [OF k p] obtain ts' where
    loop: "recalculate_loop (config c) (transactions (current_receipt c)) = (None, ts')"
    and p': "list_all (priced (PriceConfig.config (config c))) ts'"
    by blast
  define c' where
    "c' = c\<lparr>current_receipt := calculate_total ((current_receipt c)\<lparr>transactions := ts'\<rparr>)\<rparr>"
  from loop have run: "recalculate_current_transactions c = (Inr (), c')"
    by (simp add: recalculate_current_transactions_def c'_def)
  then show "fst (recalculate_current_transactions c) = Inr ()" by simp
  from reachable_receipt.recalculated [OF r run]
  have r': "reachable_receipt (current_receipt c')" .
  have "transactions (current_receipt c') = ts'" "config c' = config c"
    by (simp_all add: c'_def calculate_total_def)
  with k p' r' show "controller_ok (snd (recalculate_current_transactions c))"
    by (simp add: run controller_ok_def)
qed

text \<open>
  Every controller the program can hold has a reachable current receipt, the service
  sections in its price table, and acceptable prices for every transaction on the receipt;
  so no recalculation stops half-way.
\<close>

lemma reachable_controller_ok: "reachable c \<Longrightarrow> controller_ok c"
proof (induction rule: reachable.induct)
  case (started now fs c)
  then show ?case by (rule controller_ok_init)
next
  case (after_add c now st p colored images)
  then show ?case by (intro controller_ok_add)
next
  case (after_remove c index)
  then show ?case by (intro controller_ok_remove)
next
  case (after_clear c now)
  then show ?case by (simp add: clear_current_receipt_def controller_ok_fresh)
next
  case (after_total c)
  then show ?case by (intro controller_ok_total)
next
  case (after_generate c fault now fs)
  then show ?case by (intro controller_ok_generate)
next
  case (after_pricing c fault service monochrome colored surcharge fs)
  then show ?case by (intro controller_ok_update_pricing)
next
  case (after_recalculate c)
  then show ?case by (intro controller_ok_recalculate)
qed

text \<open>
  Claim C4. Every receipt that comes about from a fresh one by adding transactions,
  removing indices and completed recalculations has \<open>total\<close> equal to the sum of the
  subtotals of its transactions. The current receipt of every controller the program can
  hold is such a receipt, and a recalculation on such a controller always runs to its end.
  The total is recomputed by every add, by every remove of an index inside the list, and
  at the end of \<open>recalculate_current_transactions\<close>, whatever the receipt was before.
\<close>

theorem receipt_total_invariant:
  "(reachable_receipt r \<longrightarrow> total r = py_sum (map subtotal (transactions r)))
   \<and> (reachable c0 \<longrightarrow>
        reachable_receipt (current_receipt c0)
        \<and> fst (recalculate_current_transactions c0) = Inr ())
   \<and> total (Receipt_add_transaction t r0) =
       py_sum (map subtotal (transactions (Receipt_add_transaction t r0)))
   \<and> (0 \<le> index \<and> index < int (length (transactions r0)) \<longrightarrow>
        total (Receipt_remove_transaction index r0) =
          py_sum (map subtotal (transactions (Receipt_remove_transaction index r0))))
   \<and> (recalculate_current_transactions c = (Inr (), c') \<longrightarrow>
        total (current_receipt c') = py_sum (map subtotal (transactions (current_receipt c'))))"
proof -
  have "reachable_receipt (current_receipt c0) \<and> fst (recalculate_current_transactions c0) = Inr ()"
    if "reachable c0"
    using reachable_controller_ok [OF that] controller_ok_recalculate(1)
    by (simp add: controller_ok_def)
  then show ?thesis
    using reachable_total add_recomputes remove_recomputes recalculate_recomputes by blast
qed

text \<open>
  Print (50) and Photocopy (9) added, then index 0 removed: the controller is reachable, its
  total is 9 and a recalculation returns; after the price change of the example the
  recalculated total is 60.
\<close>

theorem receipt_total_invariant_witness:
  "reachable (snd (remove_transaction 0 ex_controller2))
   \<and> reachable_receipt (current_receipt (snd (remove_transaction 0 ex_controller2)))
   \<and> map subtotal (transactions (current_receipt (snd (remove_transaction 0 ex_controller2)))) = [9]
   \<and> total (current_receipt (snd (remove_transaction 0 ex_controller2))) = 9
   \<and> fst (recalculate_current_transactions (snd (remove_transaction 0 ex_controller2))) = Inr ()
   \<and> total (current_receipt ex_recalculated) = 60"
proof -
  let ?c = "snd (remove_transaction 0 ex_controller2)"
  let ?r = "current_receipt ?c"
  have "reachable ex_controller"
    using default_table(1) by (rule reachable.started)
  then have "reachable ex_controller2"
    unfolding ex_controller2_def ex_controller1_def by (intro reachable.after_add)
  then have rc: "reachable ?c"
    by (rule reachable.after_remove)
  have inside: "0 \<le> (0 :: int) \<and> 0 < int (length (transactions (current_receipt ex_controller2)))"
    by code_simp
  have subs: "map subtotal (transactions ?r) = [9]"
    "map subtotal (transactions (current_receipt ex_recalculated)) = [60]"
    by code_simp+
  have same: "?r = Receipt_remove_transaction 0 (current_receipt ex_controller2)"
    by (simp add: remove_transaction_def)
  note T = receipt_total_invariant
    [where r = ?r and ?c0.0 = ?c and ?r0.0 = "current_receipt ex_controller2" and index = 0
       and c = ex_repriced and c' = ex_recalculated and t = ex_print]
  from T rc have reach: "reachable_receipt ?r"
    and returns: "fst (recalculate_current_transactions ?c) = Inr ()"
    by blast+
  from T reach have "total ?r = py_sum (map subtotal (transactions ?r))"
    by blast
  with subs have nine: "total ?r = 9" by (simp add: py_sum_def)
  from T inside have "total (Receipt_remove_transaction 0 (current_receipt ex_controller2)) =
      py_sum (map subtotal (transactions (Receipt_remove_transaction 0 (current_receipt ex_controller2))))"
    by blast
  from T recalculate_example(1)
  have "total (current_receipt ex_recalculated) =
      py_sum (map subtotal (transactions (current_receipt ex_recalculated)))"
    by blast
  with subs have sixty: "total (current_receipt ex_recalculated) = 60" by (simp add: py_sum_def)
  from rc reach subs(1) nine returns sixty show ?thesis by blast
qed

end
